theory Spec2Isabelle
  imports Complex_Main "HOL-Library.Log_Nat"
begin

section \<open>The Python values the program computes with\<close>

subsection \<open>Exceptions\<close>

text \<open>
  An exception is its class and its message (\<open>str(e)\<close>). \<open>OtherException\<close> stands for
  every other subclass of \<open>Exception\<close> that the image library or the operating system
  may raise (a missing file, an unreadable image, an unwritable path).
\<close>

datatype exc_class =
  ValueError | AttributeError | ZeroDivisionError | OverflowError | IndexError | OtherException

type_synonym exn = "exc_class \<times> string"

definition ebind :: "exn + 'a \<Rightarrow> ('a \<Rightarrow> exn + 'b) \<Rightarrow> exn + 'b" where
  "ebind m f = (case m of Inl e \<Rightarrow> Inl e | Inr x \<Rightarrow> f x)"

subsection \<open>Floats\<close>

text \<open>
  A Python \<open>float\<close> is an IEEE 754 binary64 number. A finite one is the rational it
  denotes; every arithmetic result is rounded to the nearest binary64 number, ties to
  the even significand. \<open>round_dbl\<close> is that rounding with an unbounded exponent
  upwards: 53 significant bits, the unit in the last place never below \<open>2 powi -1074\<close>
  (the subnormal spacing). \<open>to_double\<close> adds the overflow to an infinity. The two
  zeros are one value here: the program never prints a zero nor divides by one without
  Python raising \<open>ZeroDivisionError\<close>.
\<close>

definition round_half_even :: "rat \<Rightarrow> int" where
  "round_half_even q =
     (let n = \<lfloor>q\<rfloor>; r = q - of_int n
      in if r < 1 / 2 then n else if 1 / 2 < r then n + 1 else if even n then n else n + 1)"

text \<open>\<open>ilog2 a\<close> is the \<open>e\<close> with \<open>2 powi e \<le> a < 2 powi (e + 1)\<close>, for \<open>a > 0\<close>.\<close>

definition ilog2 :: "rat \<Rightarrow> int" where
  "ilog2 a = (if 1 \<le> a then bitlen \<lfloor>a\<rfloor> - 1 else - bitlen (\<lceil>1 / a\<rceil> - 1))"

definition round_dbl :: "rat \<Rightarrow> rat" where
  "round_dbl x =
     (if x = 0 then 0 else
      let a = \<bar>x\<bar>;
          k = max (ilog2 a - 52) (- 1074);
          m = round_half_even (a / 2 powi k)
      in sgn x * of_int m * 2 powi k)"

datatype pyfloat = Fin rat | PInf | NInf | NaN

text \<open>
  The largest finite double is \<open>(2 ^ 53 - 1) * 2 ^ 971\<close>; a rounded magnitude of
  \<open>2 ^ 1024\<close> or more, one whose binary exponent is at least 1024, overflows.
\<close>

definition to_double :: "rat \<Rightarrow> pyfloat" where
  "to_double x =
     (let r = round_dbl x
      in if r = 0 then Fin 0
         else if 1024 \<le> ilog2 \<bar>r\<bar> then (if 0 < r then PInf else NInf)
         else Fin r)"

text \<open>A float literal of the source (\<open>0.01\<close>, \<open>1.0\<close>, \<open>0.5\<close>) is the nearest double.\<close>

definition float_lit :: "rat \<Rightarrow> pyfloat" where
  "float_lit x = to_double x"

fun fneg :: "pyfloat \<Rightarrow> pyfloat" where
  "fneg (Fin a) = Fin (- a)"
| "fneg PInf = NInf"
| "fneg NInf = PInf"
| "fneg NaN = NaN"

fun fabs :: "pyfloat \<Rightarrow> pyfloat" where
  "fabs (Fin a) = Fin \<bar>a\<bar>"
| "fabs PInf = PInf"
| "fabs NInf = PInf"
| "fabs NaN = NaN"

fun fadd :: "pyfloat \<Rightarrow> pyfloat \<Rightarrow> pyfloat" where
  "fadd NaN _ = NaN"
| "fadd _ NaN = NaN"
| "fadd (Fin a) (Fin b) = to_double (a + b)"
| "fadd PInf NInf = NaN"
| "fadd NInf PInf = NaN"
| "fadd PInf _ = PInf"
| "fadd NInf _ = NInf"
| "fadd (Fin a) PInf = PInf"
| "fadd (Fin a) NInf = NInf"

definition fsub :: "pyfloat \<Rightarrow> pyfloat \<Rightarrow> pyfloat" where
  "fsub x y = fadd x (fneg y)"

text \<open>\<open>fsign\<close>: the sign of a float that is not a NaN, as \<open>-1\<close>, \<open>0\<close> or \<open>1\<close>.\<close>

fun fsign :: "pyfloat \<Rightarrow> int" where
  "fsign (Fin a) = (if a = 0 then 0 else if 0 < a then 1 else - 1)"
| "fsign PInf = 1"
| "fsign NInf = - 1"
| "fsign NaN = 0"

definition signed_inf :: "int \<Rightarrow> pyfloat" where
  "signed_inf s = (if s = 0 then NaN else if 0 < s then PInf else NInf)"

fun fmul :: "pyfloat \<Rightarrow> pyfloat \<Rightarrow> pyfloat" where
  "fmul NaN _ = NaN"
| "fmul _ NaN = NaN"
| "fmul (Fin a) (Fin b) = to_double (a * b)"
| "fmul x y = signed_inf (fsign x * fsign y)"

text \<open>Float division raises on a zero divisor before anything else is looked at.\<close>

fun fdiv :: "pyfloat \<Rightarrow> pyfloat \<Rightarrow> exn + pyfloat" where
  "fdiv x (Fin b) =
     (if b = 0 then Inl (ZeroDivisionError, ''float division by zero'')
      else case x of
        Fin a \<Rightarrow> Inr (to_double (a / b))
      | NaN \<Rightarrow> Inr NaN
      | _ \<Rightarrow> Inr (signed_inf (fsign x * fsign (Fin b))))"
| "fdiv NaN _ = Inr NaN"
| "fdiv _ NaN = Inr NaN"
| "fdiv (Fin a) _ = Inr (Fin 0)"
| "fdiv _ _ = Inr NaN"

text \<open>Comparisons: every comparison with a NaN is false.\<close>

fun flt :: "pyfloat \<Rightarrow> pyfloat \<Rightarrow> bool" where
  "flt NaN _ = False"
| "flt _ NaN = False"
| "flt (Fin a) (Fin b) = (a < b)"
| "flt _ NInf = False"
| "flt PInf _ = False"
| "flt _ _ = True"

fun fle :: "pyfloat \<Rightarrow> pyfloat \<Rightarrow> bool" where
  "fle NaN _ = False"
| "fle _ NaN = False"
| "fle x y = (x = y \<or> flt x y)"

text \<open>
  Mixed operations. Python converts the \<open>int\<close> operand to a float first (rounding it,
  \<open>OverflowError\<close> beyond the largest double); it compares an \<open>int\<close> with a float
  exactly, so the integer enters a comparison unrounded.
\<close>

definition float_of_int :: "int \<Rightarrow> exn + pyfloat" where
  "float_of_int n =
     (case to_double (of_int n) of
        Fin r \<Rightarrow> Inr (Fin r)
      | _ \<Rightarrow> Inl (OverflowError, ''int too large to convert to float''))"

definition int_truediv :: "int \<Rightarrow> int \<Rightarrow> exn + pyfloat" where
  "int_truediv a b =
     (if b = 0 then Inl (ZeroDivisionError, ''division by zero'')
      else case to_double (of_int a / of_int b) of
        Fin r \<Rightarrow> Inr (Fin r)
      | _ \<Rightarrow> Inl (OverflowError, ''integer division result too large for a float''))"

definition int_mul_float :: "int \<Rightarrow> pyfloat \<Rightarrow> exn + pyfloat" where
  "int_mul_float n x = ebind (float_of_int n) (\<lambda>f. Inr (fmul f x))"

definition int_div_float :: "int \<Rightarrow> pyfloat \<Rightarrow> exn + pyfloat" where
  "int_div_float n x = ebind (float_of_int n) (\<lambda>f. fdiv f x)"

definition float_div_int :: "pyfloat \<Rightarrow> int \<Rightarrow> exn + pyfloat" where
  "float_div_int x n = ebind (float_of_int n) (\<lambda>f. fdiv x f)"

definition float_gt_int :: "pyfloat \<Rightarrow> int \<Rightarrow> bool" where
  "float_gt_int x n = flt (Fin (of_int n)) x"

definition float_le_int :: "pyfloat \<Rightarrow> int \<Rightarrow> bool" where
  "float_le_int x n = fle x (Fin (of_int n))"

text \<open>\<open>int(x)\<close> truncates towards zero; it raises on an infinity and on a NaN.\<close>

definition trunc_rat :: "rat \<Rightarrow> int" where
  "trunc_rat q = (if 0 \<le> q then \<lfloor>q\<rfloor> else \<lceil>q\<rceil>)"

fun py_int :: "pyfloat \<Rightarrow> exn + int" where
  "py_int (Fin q) = Inr (trunc_rat q)"
| "py_int NaN = Inl (ValueError, ''cannot convert float NaN to integer'')"
| "py_int _ = Inl (OverflowError, ''cannot convert float infinity to integer'')"

subsection \<open>\<open>str\<close> of an integer\<close>

fun str_nat :: "nat \<Rightarrow> string" where
  "str_nat n =
     (if n < 10 then [char_of (48 + n)]
      else str_nat (n div 10) @ [char_of (48 + n mod 10)])"

declare str_nat.simps [simp del]

definition str_int :: "int \<Rightarrow> string" where
  "str_int i = (if i < 0 then CHR ''-'' # str_nat (nat (- i)) else str_nat (nat i))"

section \<open>The command line tool: \<open>cli_photo_reducer.py\<close>\<close>

text \<open>
  The image library (PIL) and \<open>os.path\<close> are outside the repository: they are the
  fields of an environment. An image is a value of an abstract type; each operation
  returns its result or the exception it raises. \<open>ext_lower p\<close> is
  \<open>os.path.splitext(p)[1].lower()\<close>; \<open>img_save\<close> takes the \<open>quality\<close> keyword when the
  source passes it.
\<close>

record 'img pil =
  Image_open :: "string \<Rightarrow> exn + 'img"
  img_width :: "'img \<Rightarrow> int"
  img_height :: "'img \<Rightarrow> int"
  img_resize :: "'img \<Rightarrow> int \<times> int \<Rightarrow> exn + 'img"
  img_save :: "'img \<Rightarrow> string \<Rightarrow> int option \<Rightarrow> exn + unit"
  ext_lower :: "string \<Rightarrow> string"

text \<open>
  The inner \<open>if img_ratio > 1: ... else: ...\<close> of the block under
  \<open># Determine new dimensions\<close>; the same four assignments stand in \<open>resize_image\<close>
  (cli_photo_reducer.py, lines 35-42), in \<open>estimate_file_size\<close> (photo_reducer.py, lines
  255-262) and in \<open>_process_images_thread\<close> (photo_reducer.py, lines 492-499).
\<close>

definition fit_to_ratio :: "pyfloat \<Rightarrow> int \<Rightarrow> int \<Rightarrow> exn + (int \<times> int)" where
  "fit_to_ratio img_ratio width height =
     (if float_gt_int img_ratio 1 then
        ebind (int_div_float width img_ratio) (\<lambda>q.
        ebind (py_int q) (\<lambda>new_height. Inr (width, new_height)))
      else
        ebind (int_mul_float height img_ratio) (\<lambda>q.
        ebind (py_int q) (\<lambda>new_width. Inr (new_width, height))))"

text \<open>
  The whole block (cli_photo_reducer.py, lines 32-45; photo_reducer.py, lines 489-502):
  the ratio is computed only when the aspect ratio is kept.
\<close>

definition determine_new_dimensions ::
  "int \<Rightarrow> int \<Rightarrow> int \<Rightarrow> int \<Rightarrow> bool \<Rightarrow> exn + (int \<times> int)" where
  "determine_new_dimensions img_w img_h width height maintain_aspect_ratio =
     (if maintain_aspect_ratio then
        ebind (int_truediv img_w img_h) (\<lambda>img_ratio. fit_to_ratio img_ratio width height)
      else Inr (width, height))"

definition resize_image ::
  "'img pil \<Rightarrow> string \<Rightarrow> string \<Rightarrow> int \<Rightarrow> int \<Rightarrow> bool \<Rightarrow> int \<Rightarrow> bool \<times> string option" where
  "resize_image P input_path output_path width height maintain_aspect_ratio quality =
     (case
        ebind (Image_open P input_path) (\<lambda>img.
        ebind (determine_new_dimensions (img_width P img) (img_height P img)
                 width height maintain_aspect_ratio) (\<lambda>new_dims.
        ebind (img_resize P img new_dims) (\<lambda>resized_img.
          if ext_lower P input_path \<in> set [''.jpg'', ''.jpeg'']
          then img_save P resized_img output_path (Some quality)
          else img_save P resized_img output_path None)))
      of
        Inr _ \<Rightarrow> (True, None)
      | Inl e \<Rightarrow> (False, Some (snd e)))"

text \<open>
  The Resizer as the specification words it (section 4.1), over exact rationals and
  with \<open>round\<close>: kept apart from the code's \<open>determine_new_dimensions\<close>, to compare
  the two.
\<close>

definition resize_box_spec :: "int \<times> int \<Rightarrow> int \<times> int \<Rightarrow> bool \<Rightarrow> int \<times> int" where
  "resize_box_spec original target preserve_aspect =
     (case (original, target) of ((W, H), (TW, TH)) \<Rightarrow>
        if preserve_aspect then
          let ratio = (of_int W / of_int H :: rat)
          in if 1 < ratio then (TW, round (of_int TW / ratio))
             else (round (of_int TH * ratio), TH)
        else (TW, TH))"

section \<open>The window application: \<open>photo_reducer.py\<close>\<close>

text \<open>
  What the application needs from outside, beyond the image library: the built-ins
  \<open>float\<close> and \<open>int\<close> on the text of an entry field (\<open>None\<close> when they raise
  \<open>ValueError\<close>), the size of the preview canvas, the drawing of the preview
  (\<open>ImageTk.PhotoImage\<close>, the canvas calls and \<open>os.path.getsize\<close>), and the encoder:
  \<open>save_tell img fmt q\<close> saves into a fresh memory buffer and returns \<open>buffer.tell()\<close>.
\<close>

datatype img_format = JPEG | PNG | GIF

record 'img gui_env = "'img pil" +
  save_tell :: "'img \<Rightarrow> img_format \<Rightarrow> int option \<Rightarrow> exn + int"
  builtin_float :: "string \<Rightarrow> pyfloat option"
  builtin_int :: "string \<Rightarrow> int option"
  winfo :: "int \<times> int"
  show_preview :: "'img \<Rightarrow> string \<Rightarrow> exn + unit"

text \<open>
  The message boxes, one constructor for each call of the source, with the values its
  text is formatted from:
  \<^item> \<open>NoImage\<close>: showwarning "No Image";
  \<^item> \<open>InvalidSize\<close>: showerror "Invalid Size", "Target size must be greater than 0 KB.";
  \<^item> \<open>NoResizingNeeded s\<close>: showinfo "No Resizing Needed", with the initial size;
  \<^item> \<open>DimensionsCalculated w h s\<close>: showinfo "Dimensions Calculated";
  \<^item> \<open>InvalidInput\<close>: showerror "Invalid Input", "Please enter a valid number for target size.";
  \<^item> \<open>PreviewError e\<close>: showerror "Preview Error";
  \<^item> \<open>NoInput\<close>, \<open>NoOutput\<close>: the two warnings of \<open>process_images\<close>;
  \<^item> \<open>SizeNotPositive\<close>: showerror "Invalid Size", "Width and height must be positive numbers.";
  \<^item> \<open>SizeNotNumber\<close>: showerror "Invalid Size", "Width and height must be valid numbers.".
\<close>

datatype dialog =
    NoImage
  | InvalidSize
  | NoResizingNeeded pyfloat
  | DimensionsCalculated int int pyfloat
  | InvalidInput
  | PreviewError exn
  | NoInput
  | NoOutput
  | SizeNotPositive
  | SizeNotNumber

text \<open>
  The fields of \<open>PhotoReducerApp\<close> that the modelled methods read or write. The label
  \<open>file_size_label\<close> holds the number it shows (\<open>None\<close>: empty text). Three fields are
  traces of effects, not attributes of the class: \<open>est_calls\<close> lists the arguments of
  every call of \<open>estimate_file_size\<close> that got past its guard, \<open>dialogs\<close> the message
  boxes shown, and \<open>retries\<close> counts the \<open>root.after(100, self.update_preview)\<close>
  calls.
\<close>

record 'img app =
  input_files :: "string list"
  output_dir :: string
  width_var :: string
  height_var :: string
  maintain_aspect_ratio :: bool
  quality_var :: int
  target_size_kb_var :: string
  size_mode :: bool
  current_preview_index :: nat
  current_img :: "'img option"
  file_size_label :: "pyfloat option"
  est_calls :: "(int \<times> int) list"
  dialogs :: "dialog list"
  retries :: nat

definition show_dialog :: "dialog \<Rightarrow> 'img app \<Rightarrow> 'img app" where
  "show_dialog d st = st\<lparr>dialogs := dialogs st @ [d]\<rparr>"

definition list_index :: "'a list \<Rightarrow> nat \<Rightarrow> exn + 'a" where
  "list_index xs i =
     (if i < length xs then Inr (xs ! i) else Inl (IndexError, ''list index out of range''))"

subsection \<open>\<open>estimate_file_size\<close>\<close>

text \<open>
  Lines 252-269: the ratio is computed before the flag is read, and the result is
  capped at the original size on each axis.
\<close>

definition trial_dimensions ::
  "int \<Rightarrow> int \<Rightarrow> int \<Rightarrow> int \<Rightarrow> bool \<Rightarrow> exn + (int \<times> int)" where
  "trial_dimensions img_w img_h width height maintain =
     ebind (int_truediv img_w img_h) (\<lambda>img_ratio.
     ebind (if maintain then fit_to_ratio img_ratio width height else Inr (width, height))
       (\<lambda>new_dims.
     Inr (min (fst new_dims) img_w, min (snd new_dims) img_h)))"

text \<open>Lines 279-287: the format, and whether \<open>quality\<close> is passed.\<close>

definition encode_format :: "string \<Rightarrow> int \<Rightarrow> img_format \<times> int option" where
  "encode_format ext quality =
     (if ext \<in> set [''.jpg'', ''.jpeg''] then (JPEG, Some quality)
      else if ext = ''.png'' then (PNG, None)
      else if ext = ''.gif'' then (GIF, None)
      else (JPEG, Some quality))"

definition estimate_file_size ::
  "'img gui_env \<Rightarrow> int \<Rightarrow> int \<Rightarrow> int \<Rightarrow> 'img app \<Rightarrow> (exn + pyfloat) \<times> 'img app" where
  "estimate_file_size E width height quality st =
     (case current_img st of
        None \<Rightarrow> (Inr (Fin 0), st)
      | Some img \<Rightarrow>
          (ebind (trial_dimensions (img_width E img) (img_height E img) width height
                    (maintain_aspect_ratio st)) (\<lambda>new_dims.
           ebind (img_resize E img new_dims) (\<lambda>resized_img.
           ebind (list_index (input_files st) (current_preview_index st)) (\<lambda>file_path.
           ebind (case encode_format (ext_lower E file_path) quality of
                    (fmt, q) \<Rightarrow> save_tell E resized_img fmt q) (\<lambda>n.
           int_truediv n 1024)))),
           st\<lparr>est_calls := est_calls st @ [(width, height)]\<rparr>))"

subsection \<open>\<open>update_file_size_estimate\<close>, \<open>update_preview\<close>, \<open>toggle_mode\<close>\<close>

text \<open>
  A method that can let an exception escape returns \<open>Some e\<close> with the state as the
  exception left it, and \<open>None\<close> when it returns normally.
\<close>

definition update_file_size_estimate :: "'img gui_env \<Rightarrow> 'img app \<Rightarrow> exn option \<times> 'img app" where
  "update_file_size_estimate E st =
     (case builtin_int E (width_var st) of
        None \<Rightarrow> (None, st\<lparr>file_size_label := None\<rparr>)
      | Some width \<Rightarrow>
          (case builtin_int E (height_var st) of
             None \<Rightarrow> (None, st\<lparr>file_size_label := None\<rparr>)
           | Some height \<Rightarrow>
               (case estimate_file_size E width height (quality_var st) st of
                  (Inr size_kb, st1) \<Rightarrow> (None, st1\<lparr>file_size_label := Some size_kb\<rparr>)
                | (Inl e, st1) \<Rightarrow>
                    if fst e \<in> {ValueError, AttributeError}
                    then (None, st1\<lparr>file_size_label := None\<rparr>)
                    else (Some e, st1))))"

text \<open>Lines 402-413: the size of the preview picture.\<close>

definition display_dimensions :: "int \<Rightarrow> int \<Rightarrow> int \<Rightarrow> int \<Rightarrow> exn + (int \<times> int)" where
  "display_dimensions img_w img_h preview_width preview_height =
     ebind (int_truediv img_w img_h) (\<lambda>img_ratio.
     ebind (int_truediv preview_width preview_height) (\<lambda>preview_ratio.
       if flt preview_ratio img_ratio then
         ebind (int_div_float preview_width img_ratio) (\<lambda>q.
         ebind (py_int q) (\<lambda>display_height. Inr (preview_width, display_height)))
       else
         ebind (int_mul_float preview_height img_ratio) (\<lambda>q.
         ebind (py_int q) (\<lambda>display_width. Inr (display_width, preview_height)))))"

definition update_preview :: "'img gui_env \<Rightarrow> 'img app \<Rightarrow> 'img app" where
  "update_preview E st =
     (if input_files st = [] then st
      else
        case list_index (input_files st) (current_preview_index st) of
          Inl e \<Rightarrow> show_dialog (PreviewError e) st
        | Inr img_path \<Rightarrow>
            (case Image_open E img_path of
               Inl e \<Rightarrow> show_dialog (PreviewError e) st
             | Inr img \<Rightarrow>
                 let st1 = st\<lparr>current_img := Some img\<rparr>;
                     preview_width = fst (winfo E) - 10;
                     preview_height = snd (winfo E) - 10
                 in if preview_width \<le> 1 \<or> preview_height \<le> 1
                    then st1\<lparr>retries := retries st1 + 1\<rparr>
                    else
                      (case ebind (display_dimensions (img_width E img) (img_height E img)
                                     preview_width preview_height) (\<lambda>display.
                            ebind (img_resize E img display) (\<lambda>img_preview.
                            show_preview E img_preview img_path)) of
                         Inl e \<Rightarrow> show_dialog (PreviewError e) st1
                       | Inr _ \<Rightarrow>
                           if \<not> size_mode st1 then
                             (case update_file_size_estimate E st1 of
                                (None, st2) \<Rightarrow> st2
                              | (Some e, st2) \<Rightarrow> show_dialog (PreviewError e) st2)
                           else st1)))"

text \<open>
  \<open>toggle_mode\<close> shows one of the two entry frames (layout only) and refreshes the
  preview when an image is loaded.
\<close>

definition toggle_mode :: "'img gui_env \<Rightarrow> 'img app \<Rightarrow> 'img app" where
  "toggle_mode E st = (if current_img st \<noteq> None then update_preview E st else st)"

subsection \<open>\<open>calculate_dimensions\<close>\<close>

text \<open>
  \<open>scaled_size w h scale\<close> is \<open>(max(10, int(w * scale)), max(10, int(h * scale)))\<close>:
  lines 343-348 for a trial scale, lines 363-364 for the best one.
\<close>

definition scaled_size :: "int \<Rightarrow> int \<Rightarrow> pyfloat \<Rightarrow> exn + (int \<times> int)" where
  "scaled_size original_width original_height scale =
     ebind (ebind (int_mul_float original_width scale) py_int) (\<lambda>w.
     ebind (ebind (int_mul_float original_height scale) py_int) (\<lambda>h.
     Inr (max 10 w, max 10 h)))"

text \<open>
  The loop \<open>for _ in range(10)\<close> (lines 341-360), run \<open>n\<close> times on the variables
  \<open>(min_scale, max_scale, best_scale, best_diff)\<close>.
\<close>

type_synonym search_vars = "pyfloat \<times> pyfloat \<times> pyfloat \<times> pyfloat"

fun search_loop ::
  "'img gui_env \<Rightarrow> nat \<Rightarrow> int \<Rightarrow> int \<Rightarrow> int \<Rightarrow> pyfloat \<Rightarrow> search_vars \<Rightarrow> 'img app
     \<Rightarrow> (exn + search_vars) \<times> 'img app" where
  "search_loop E 0 original_width original_height quality target_kb vars st = (Inr vars, st)"
| "search_loop E (Suc n) original_width original_height quality target_kb
       (min_scale, max_scale, best_scale, best_diff) st =
     (case float_div_int (fadd min_scale max_scale) 2 of
        Inl e \<Rightarrow> (Inl e, st)
      | Inr scale \<Rightarrow>
          (case scaled_size original_width original_height scale of
             Inl e \<Rightarrow> (Inl e, st)
           | Inr (test_width, test_height) \<Rightarrow>
               (case estimate_file_size E test_width test_height quality st of
                  (Inl e, st1) \<Rightarrow> (Inl e, st1)
                | (Inr size_kb, st1) \<Rightarrow>
                    let diff = fabs (fsub size_kb target_kb);
                        best = (if flt diff best_diff then (scale, diff)
                                else (best_scale, best_diff));
                        bounds = (if flt target_kb size_kb then (min_scale, scale)
                                  else (scale, max_scale))
                    in search_loop E n original_width original_height quality target_kb
                         (fst bounds, snd bounds, fst best, snd best) st1)))"

text \<open>\<open>except ValueError\<close> around the body (lines 311, 381-382).\<close>

definition except_ValueError :: "exn option \<times> 'img app \<Rightarrow> exn option \<times> 'img app" where
  "except_ValueError r =
     (case r of
        (None, st) \<Rightarrow> (None, st)
      | (Some e, st) \<Rightarrow>
          if fst e = ValueError then (None, show_dialog InvalidInput st) else (Some e, st))"

definition calculate_dimensions :: "'img gui_env \<Rightarrow> 'img app \<Rightarrow> exn option \<times> 'img app" where
  "calculate_dimensions E st =
     (case current_img st of
        None \<Rightarrow> (None, show_dialog NoImage st)
      | Some img \<Rightarrow>
          if input_files st = [] then (None, show_dialog NoImage st)
          else except_ValueError
            (case builtin_float E (target_size_kb_var st) of
               None \<Rightarrow> (Some (ValueError, ''could not convert string to float''), st)
             | Some target_kb \<Rightarrow>
                 if float_le_int target_kb 0 then (None, show_dialog InvalidSize st)
                 else
                   let original_width = img_width E img;
                       original_height = img_height E img;
                       quality = quality_var st
                   in (case estimate_file_size E original_width original_height quality st of
                        (Inl e, st1) \<Rightarrow> (Some e, st1)
                      | (Inr initial_size, st1) \<Rightarrow>
                          if fle initial_size target_kb then
                            (None, show_dialog (NoResizingNeeded initial_size)
                               (st1\<lparr>width_var := str_int original_width,
                                     height_var := str_int original_height\<rparr>))
                          else
                            (case search_loop E 10 original_width original_height quality
                                    target_kb
                                    (float_lit (1 / 100), float_lit 1, float_lit (1 / 2), PInf)
                                    st1 of
                               (Inl e, st2) \<Rightarrow> (Some e, st2)
                             | (Inr (min_scale, max_scale, best_scale, best_diff), st2) \<Rightarrow>
                                 (case scaled_size original_width original_height best_scale of
                                    Inl e \<Rightarrow> (Some e, st2)
                                  | Inr (new_width, new_height) \<Rightarrow>
                                      let st3 = st2\<lparr>width_var := str_int new_width,
                                                     height_var := str_int new_height\<rparr>;
                                          st4 = toggle_mode E (st3\<lparr>size_mode := False\<rparr>);
                                          st5 = update_preview E st4
                                      in (case estimate_file_size E new_width new_height
                                                quality st5 of
                                           (Inl e, st6) \<Rightarrow> (Some e, st6)
                                         | (Inr s, st6) \<Rightarrow>
                                             (None, show_dialog
                                                (DimensionsCalculated new_width new_height s)
                                                st6)))))))"


subsection \<open>\<open>process_images\<close>\<close>

text \<open>
  \<open>process_images\<close> either shows a message box and returns, or starts the worker
  thread \<open>_process_images_thread\<close> on the parsed \<open>(width, height)\<close>; the worker computes
  each image's new size by \<open>determine_new_dimensions\<close>.
\<close>

datatype process_outcome = Rejected dialog | ThreadStarted int int

definition process_images :: "'img gui_env \<Rightarrow> 'img app \<Rightarrow> process_outcome" where
  "process_images E st =
     (if input_files st = [] then Rejected NoInput
      else if output_dir st = [] then Rejected NoOutput
      else
        case builtin_int E (width_var st) of
          None \<Rightarrow> Rejected SizeNotNumber
        | Some width \<Rightarrow>
            (case builtin_int E (height_var st) of
               None \<Rightarrow> Rejected SizeNotNumber
             | Some height \<Rightarrow>
                 if width \<le> 0 \<or> height \<le> 0 then Rejected SizeNotPositive
                 else ThreadStarted width height))"

section \<open>Sample environments\<close>

text \<open>
  A concrete image library to run the definitions on: an image is its
  \<open>(width, height)\<close>, opening any path gives \<open>original\<close>, resizing gives the
  requested size and refuses an axis below one pixel as PIL does, saving succeeds, and
  every path has the extension \<open>.jpg\<close>.
\<close>

definition sample_pil :: "int \<times> int \<Rightarrow> (int \<times> int) pil" where
  "sample_pil original =
     \<lparr>Image_open = (\<lambda>path. Inr original),
      img_width = fst,
      img_height = snd,
      img_resize = (\<lambda>img new_dims.
         if fst new_dims < 1 \<or> snd new_dims < 1
         then Inl (ValueError, ''height and width must be > 0'')
         else Inr new_dims),
      img_save = (\<lambda>img path quality. Inr ()),
      ext_lower = (\<lambda>path. ''.jpg'')\<rparr>"

text \<open>
  A concrete application environment on top of \<open>sample_pil\<close>: the encoder writes three
  bytes for each pixel, \<open>float\<close> of the target field gives \<open>target\<close>, \<open>int\<close> reads a
  string of ASCII digits, the canvas has the size \<open>canvas\<close> and drawing succeeds.
\<close>

definition digits_int :: "string \<Rightarrow> int option" where
  "digits_int s =
     (if s \<noteq> [] \<and> list_all (\<lambda>c. c \<in> set ''0123456789'') s
      then Some (foldl (\<lambda>a c. 10 * a + (int (of_char c) - 48)) 0 s)
      else None)"

definition sample_env ::
  "int \<times> int \<Rightarrow> pyfloat option \<Rightarrow> int \<times> int \<Rightarrow> (int \<times> int) gui_env" where
  "sample_env original target canvas =
     \<lparr>Image_open = (\<lambda>path. Inr original),
      img_width = fst,
      img_height = snd,
      img_resize = (\<lambda>img new_dims.
         if fst new_dims < 1 \<or> snd new_dims < 1
         then Inl (ValueError, ''height and width must be > 0'')
         else Inr new_dims),
      img_save = (\<lambda>img path quality. Inr ()),
      ext_lower = (\<lambda>path. ''.jpg''),
      save_tell = (\<lambda>img fmt quality. Inr (fst img * snd img * 3)),
      builtin_float = (\<lambda>s. target),
      builtin_int = digits_int,
      winfo = canvas,
      show_preview = (\<lambda>img path. Inr ())\<rparr>"

text \<open>The application right after one image was selected, its fields at their defaults.\<close>

definition sample_app :: "int \<times> int \<Rightarrow> (int \<times> int) app" where
  "sample_app original =
     \<lparr>input_files = [''photo.jpg''],
      output_dir = ''out'',
      width_var = ''800'',
      height_var = ''600'',
      maintain_aspect_ratio = True,
      quality_var = 85,
      target_size_kb_var = ''600'',
      size_mode = True,
      current_preview_index = 0,
      current_img = Some original,
      file_size_label = None,
      est_calls = [],
      dialogs = [],
      retries = 0\<rparr>"

text \<open>The same application with "Maintain aspect ratio" unticked.\<close>

definition sample_app_free :: "int \<times> int \<Rightarrow> (int \<times> int) app" where
  "sample_app_free original = (sample_app original)\<lparr>maintain_aspect_ratio := False\<rparr>"

section \<open>Predicates of the proofs\<close>



section \<open>Facts about the rounding\<close>

lemma round_half_even_of_int: "round_half_even (of_int m) = m"
  by (simp add: round_half_even_def)

lemma round_half_even_le:
  assumes "q \<le> of_int m" shows "round_half_even q \<le> m"
proof -
  have fl: "\<lfloor>q\<rfloor> \<le> m" using assms by (simp add: floor_le_iff)
  show ?thesis
  proof (cases "\<lfloor>q\<rfloor> = m")
    case True
    then have "q = of_int m" using assms
      by (metis of_int_floor_le order_antisym)
    then show ?thesis by (simp add: round_half_even_of_int)
  next
    case False
    then have "\<lfloor>q\<rfloor> + 1 \<le> m" using fl by simp
    then show ?thesis unfolding round_half_even_def Let_def by auto
  qed
qed

lemma round_half_even_nonneg: "0 \<le> q \<Longrightarrow> 0 \<le> round_half_even q"
  unfolding round_half_even_def Let_def by auto

lemma ilog2_less:
  assumes "0 < a" "a < 2 ^ n" shows "ilog2 a < int n"
proof (cases "1 \<le> a")
  case True
  have "\<lfloor>a\<rfloor> < 2 ^ n" using assms(2) by (simp add: floor_less_iff)
  then have "bitlen \<lfloor>a\<rfloor> \<le> int n" by (simp add: bitlen_le_iff_power)
  then show ?thesis using True by (simp add: ilog2_def)
next
  case False
  then have "1 < 1 / a" using assms(1) by simp
  then have "2 \<le> \<lceil>1 / a\<rceil>" by linarith
  then have "0 < \<lceil>1 / a\<rceil> - 1" by simp
  then have "0 < bitlen (\<lceil>1 / a\<rceil> - 1)"
    using bitlen_nonneg[of "\<lceil>1 / a\<rceil> - 1"] bitlen_eq_zero_iff[of "\<lceil>1 / a\<rceil> - 1"] by linarith
  then show ?thesis using False by (simp add: ilog2_def)
qed

lemma ulp_exp_nonpos:
  assumes "0 < a" "a < 2 ^ 53" shows "max (ilog2 a - 52) (- 1074) \<le> 0"
  using ilog2_less[OF assms] by simp

lemma round_dbl_nonneg: "0 \<le> x \<Longrightarrow> 0 \<le> round_dbl x"
  by (simp add: round_dbl_def Let_def round_half_even_nonneg)

lemma round_dbl_minus: "round_dbl (- x) = - round_dbl x"
  by (simp add: round_dbl_def Let_def sgn_minus)

lemma round_dbl_small:
  assumes "0 < x" "x < 2 ^ 53"
  shows "\<exists>j. round_dbl x = of_int (round_half_even (x * 2 ^ j)) / 2 ^ j"
proof -
  define k where "k = max (ilog2 x - 52) (- 1074)"
  have k0: "k \<le> 0" unfolding k_def using ulp_exp_nonpos[OF assms] .
  define j where "j = nat (- k)"
  have pk: "(2::rat) powi k = 1 / 2 ^ j"
    using k0 by (simp add: power_int_def j_def inverse_eq_divide power_one_over)
  have "round_dbl x = of_int (round_half_even (x * 2 ^ j)) / 2 ^ j"
    using assms(1) by (simp add: round_dbl_def Let_def k_def[symmetric] pk)
  then show ?thesis ..
qed

lemma of_int_less_pow53: "n < 2 ^ 53 \<Longrightarrow> (of_int n :: rat) < 2 ^ 53"
proof -
  assume "n < 2 ^ 53"
  then have "(of_int n :: rat) < of_int (2 ^ 53)" by (simp only: of_int_less_iff)
  then show ?thesis by simp
qed

lemma round_dbl_le_int:
  assumes "0 \<le> x" "x \<le> of_int n" "n < 2 ^ 53"
  shows "round_dbl x \<le> of_int n"
proof (cases "x = 0")
  case True
  then show ?thesis using assms by (simp add: round_dbl_def)
next
  case False
  then have xpos: "0 < x" using assms(1) by simp
  have "x < 2 ^ 53" using assms(2) of_int_less_pow53[OF assms(3)] by simp
  from round_dbl_small[OF xpos this] obtain j where
    rd: "round_dbl x = of_int (round_half_even (x * 2 ^ j)) / 2 ^ j" ..
  have "x * 2 ^ j \<le> of_int (n * 2 ^ j)" using assms(2) by simp
  then have "round_half_even (x * 2 ^ j) \<le> n * 2 ^ j" by (rule round_half_even_le)
  then have "(of_int (round_half_even (x * 2 ^ j)) :: rat) \<le> of_int (n * 2 ^ j)"
    by (simp only: of_int_le_iff)
  then show ?thesis unfolding rd by (simp add: divide_le_eq)
qed

lemma round_dbl_abs: "\<bar>round_dbl x\<bar> = round_dbl \<bar>x\<bar>"
proof (cases "0 \<le> x")
  case True
  then show ?thesis using round_dbl_nonneg[of x] by simp
next
  case False
  then have "0 \<le> - x" by simp
  then have "0 \<le> round_dbl (- x)" by (rule round_dbl_nonneg)
  then show ?thesis using False by (simp add: round_dbl_minus)
qed

lemma round_dbl_abs_le_int:
  assumes "\<bar>x\<bar> \<le> of_int n" "n < 2 ^ 53"
  shows "\<bar>round_dbl x\<bar> \<le> of_int n"
  unfolding round_dbl_abs using assms by (intro round_dbl_le_int) simp_all

lemma round_dbl_of_int:
  assumes "\<bar>n\<bar> < 2 ^ 53"
  shows "round_dbl (of_int n) = of_int n"
proof -
  have pos: "round_dbl (of_int m) = of_int m" if "0 < m" "m < 2 ^ 53" for m :: int
  proof -
    let ?x = "of_int m :: rat"
    have xpos: "0 < ?x" using that by simp
    from round_dbl_small[OF xpos of_int_less_pow53[OF that(2)]] obtain j where
      rd: "round_dbl ?x = of_int (round_half_even (?x * 2 ^ j)) / 2 ^ j" ..
    have "?x * 2 ^ j = of_int (m * 2 ^ j)" by simp
    then have "round_half_even (?x * 2 ^ j) = m * 2 ^ j"
      by (simp only: round_half_even_of_int)
    then show ?thesis unfolding rd by simp
  qed
  consider "n = 0" | "0 < n" | "n < 0" by linarith
  then show ?thesis
  proof cases
    case 1 then show ?thesis by (simp add: round_dbl_def)
  next
    case 2 then show ?thesis using pos[of n] assms by simp
  next
    case 3
    then have "round_dbl (of_int (- n)) = of_int (- n)" using pos[of "- n"] assms by simp
    then show ?thesis using round_dbl_minus[of "of_int n"] by simp
  qed
qed

lemma to_double_Fin:
  assumes "\<bar>round_dbl x\<bar> < 2 ^ 1024"
  shows "to_double x = Fin (round_dbl x)"
proof (cases "round_dbl x = 0")
  case True
  then show ?thesis by (simp add: to_double_def)
next
  case False
  then have "0 < \<bar>round_dbl x\<bar>" by simp
  from ilog2_less[OF this assms] show ?thesis using False by (simp add: to_double_def Let_def)
qed

lemma to_double_bounded:
  assumes "\<bar>x\<bar> \<le> of_int n" "n < 2 ^ 53"
  shows "to_double x = Fin (round_dbl x)"
proof -
  have "\<bar>round_dbl x\<bar> \<le> of_int n" using assms by (rule round_dbl_abs_le_int)
  also have "(of_int n :: rat) < 2 ^ 53" using assms(2) by (rule of_int_less_pow53)
  also have "(2::rat) ^ 53 < 2 ^ 1024" by simp
  finally show ?thesis by (rule to_double_Fin)
qed

lemma float_of_int_small:
  assumes "\<bar>n\<bar> < 2 ^ 53"
  shows "float_of_int n = Inr (Fin (of_int n))"
proof -
  have "\<bar>of_int n :: rat\<bar> \<le> of_int \<bar>n\<bar>" by simp
  from to_double_bounded[OF this assms] show ?thesis
    by (simp add: float_of_int_def round_dbl_of_int[OF assms])
qed

lemma int_truediv_small:
  assumes "b \<noteq> 0" "\<bar>a\<bar> < 2 ^ 53"
  shows "int_truediv a b = Inr (Fin (round_dbl (of_int a / of_int b)))"
proof -
  have "1 \<le> \<bar>b\<bar>" using assms(1) by simp
  then have "(of_int 1 :: rat) \<le> of_int \<bar>b\<bar>" by (simp only: of_int_le_iff)
  then have "1 \<le> \<bar>of_int b :: rat\<bar>" by simp
  then have "\<bar>of_int a :: rat\<bar> / \<bar>of_int b\<bar> \<le> \<bar>of_int a\<bar> / 1"
    by (intro divide_left_mono) simp_all
  then have "\<bar>of_int a / of_int b :: rat\<bar> \<le> of_int \<bar>a\<bar>"
    by (simp only: abs_divide of_int_abs div_by_1)
  from to_double_bounded[OF this assms(2)] show ?thesis
    using assms(1) by (simp add: int_truediv_def)
qed

section \<open>Facts about the Python operations\<close>

lemma ebind_Inr [simp]: "ebind (Inr x) f = f x"
  by (simp add: ebind_def)

lemma ebind_Inl [simp]: "ebind (Inl e) f = Inl e"
  by (simp add: ebind_def)

lemma trunc_rat_nonneg: "0 \<le> q \<Longrightarrow> 0 \<le> trunc_rat q"
  by (simp add: trunc_rat_def)

lemma ratio_nonneg:
  assumes "0 \<le> W" "0 < H"
  shows "0 \<le> round_dbl (of_int W / of_int H)"
  using assms by (intro round_dbl_nonneg) simp

lemma fit_to_ratio_wide:
  assumes "1 < r" "\<bar>width\<bar> < 2 ^ 53"
  shows "fit_to_ratio (Fin r) width height =
           Inr (width, trunc_rat (round_dbl (of_int width / r)))"
proof -
  have "\<bar>of_int width :: rat\<bar> / \<bar>r\<bar> \<le> \<bar>of_int width\<bar> / 1"
    using assms(1) by (intro divide_left_mono) simp_all
  then have "\<bar>of_int width / r\<bar> \<le> of_int \<bar>width\<bar>"
    by (simp only: abs_divide of_int_abs div_by_1)
  from to_double_bounded[OF this assms(2)] show ?thesis
    using assms(1)
    by (simp add: fit_to_ratio_def float_gt_int_def int_div_float_def
        float_of_int_small[OF assms(2)])
qed

lemma fit_to_ratio_tall:
  assumes "0 \<le> r" "r \<le> 1" "\<bar>height\<bar> < 2 ^ 53"
  shows "fit_to_ratio (Fin r) width height =
           Inr (trunc_rat (round_dbl (of_int height * r)), height)"
proof -
  have "\<bar>of_int height :: rat\<bar> * \<bar>r\<bar> \<le> \<bar>of_int height\<bar> * 1"
    using assms(1,2) by (intro mult_left_mono) simp_all
  then have "\<bar>of_int height * r\<bar> \<le> of_int \<bar>height\<bar>"
    by (simp only: abs_mult of_int_abs mult_1_right)
  from to_double_bounded[OF this assms(3)] show ?thesis
    using assms(2)
    by (simp add: fit_to_ratio_def float_gt_int_def int_mul_float_def
        float_of_int_small[OF assms(3)])
qed

section \<open>The resizer\<close>

text \<open>
  Claim C3, as amended. With the aspect ratio kept, for an original \<open>W x H\<close> with
  \<open>W, H > 0\<close> and a target box \<open>(TW, TH)\<close> (all below \<open>2 ^ 53\<close> in
  magnitude, so that the conversion to a float is exact), the resizer returns, with
  \<open>ratio = W / H\<close> as a float: \<open>(TW, int(TW / ratio))\<close> if \<open>ratio > 1\<close>, else
  \<open>(int(TH * ratio), TH)\<close>. The landscape-fits-width, otherwise-fits-height choice is
  the claim's; the non-authoritative axis is truncated towards zero by \<open>int\<close>, not
  rounded, and no exception is raised.
\<close>

theorem determine_new_dimensions_truncates:
  assumes "0 < W" "W < 2 ^ 53" "0 < H" "\<bar>TW\<bar> < 2 ^ 53" "\<bar>TH\<bar> < 2 ^ 53"
  shows "determine_new_dimensions W H TW TH True =
           Inr (let ratio = round_dbl (of_int W / of_int H)
                in if 1 < ratio then (TW, trunc_rat (round_dbl (of_int TW / ratio)))
                   else (trunc_rat (round_dbl (of_int TH * ratio)), TH))"
proof -
  let ?r = "round_dbl (of_int W / of_int H)"
  have W: "\<bar>W\<bar> < 2 ^ 53" using assms(1,2) by simp
  have H: "H \<noteq> 0" using assms(3) by simp
  have r0: "0 \<le> ?r" using assms(1,3) by (intro ratio_nonneg) simp_all
  show ?thesis
  proof (cases "1 < ?r")
    case True
    then show ?thesis
      by (simp add: determine_new_dimensions_def int_truediv_small[OF H W]
          fit_to_ratio_wide[OF True assms(4)])
  next
    case False
    then have "?r \<le> 1" by simp
    from fit_to_ratio_tall[OF r0 this assms(5)] show ?thesis using False
      by (simp add: determine_new_dimensions_def int_truediv_small[OF H W])
  qed
qed

text \<open>
  The two scenarios of the specification: \<open>2000 x 1000\<close> into \<open>(800, 600)\<close> gives
  \<open>(800, 400)\<close>, and \<open>1000 x 2000\<close> gives \<open>(300, 600)\<close>.
\<close>

theorem determine_new_dimensions_truncates_witness:
  "determine_new_dimensions 2000 1000 800 600 True = Inr (800, 400) \<and>
   determine_new_dimensions 1000 2000 800 600 True = Inr (300, 600)"
proof -
  have a: "(let ratio = round_dbl (of_int 2000 / of_int 1000)
            in if 1 < ratio then (800::int, trunc_rat (round_dbl (of_int 800 / ratio)))
               else (trunc_rat (round_dbl (of_int 600 * ratio)), 600::int)) = (800, 400)"
    by code_simp
  have b: "(let ratio = round_dbl (of_int 1000 / of_int 2000)
            in if 1 < ratio then (800::int, trunc_rat (round_dbl (of_int 800 / ratio)))
               else (trunc_rat (round_dbl (of_int 600 * ratio)), 600::int)) = (300, 600)"
    by code_simp
  show ?thesis
    using determine_new_dimensions_truncates[of 2000 1000 800 600]
      determine_new_dimensions_truncates[of 1000 2000 800 600]
    unfolding a b by simp
qed

text \<open>
  Claim C3 as stated fails: for a \<open>4 x 1\<close> original and the box \<open>(3, 600)\<close> the
  claim's \<open>round(3 / 4.0)\<close> is 1, and the code's \<open>int(3 / 4.0)\<close> is 0. Every
  value here is exact in binary floating point.
\<close>

theorem determine_new_dimensions_round_counterexample:
  "determine_new_dimensions 4 1 3 600 True = Inr (3, 0) \<and>
   resize_box_spec (4, 1) (3, 600) True = (3, 1)"
  by code_simp

text \<open>
  What the dimension block gives by itself, for a positive original and a positive
  target box (all below \<open>2 ^ 53\<close>): it raises nothing; with the aspect ratio not kept
  the size is the box; with the aspect ratio kept the authoritative axis (the width when
  \<open>ratio > 1\<close>, else the height) is the box's, and the other axis is a truncated
  quotient or product, which is never negative but can be zero.
\<close>

lemma determine_new_dimensions_axes:
  assumes "0 < W" "W < 2 ^ 53" "0 < H" "0 < TW" "TW < 2 ^ 53" "0 < TH" "TH < 2 ^ 53"
  shows "\<exists>nw nh. determine_new_dimensions W H TW TH keep = Inr (nw, nh) \<and>
           (if keep then
              (if 1 < round_dbl (of_int W / of_int H) then nw = TW \<and> 1 \<le> nw \<and> 0 \<le> nh
               else nh = TH \<and> 1 \<le> nh \<and> 0 \<le> nw)
            else nw = TW \<and> nh = TH \<and> 1 \<le> nw \<and> 1 \<le> nh)"
proof (cases keep)
  case False
  then show ?thesis using assms by (simp add: determine_new_dimensions_def)
next
  case True
  let ?r = "round_dbl (of_int W / of_int H)"
  have r0: "0 \<le> ?r" using assms(1,3) by (intro ratio_nonneg) simp_all
  have W: "\<bar>W\<bar> < 2 ^ 53" using assms(1,2) by simp
  have H: "H \<noteq> 0" using assms(3) by simp
  have TW: "\<bar>TW\<bar> < 2 ^ 53" using assms(4,5) by simp
  have TH: "\<bar>TH\<bar> < 2 ^ 53" using assms(6,7) by simp
  have eq: "determine_new_dimensions W H TW TH True = fit_to_ratio (Fin ?r) TW TH"
    by (simp add: determine_new_dimensions_def int_truediv_small[OF H W])
  show ?thesis
  proof (cases "1 < ?r")
    case wide: True
    have "0 \<le> of_int TW / ?r" using assms(4) r0 by simp
    then have "0 \<le> trunc_rat (round_dbl (of_int TW / ?r))"
      by (intro trunc_rat_nonneg round_dbl_nonneg)
    then show ?thesis using True wide eq assms(4) fit_to_ratio_wide[OF wide TW, of TH]
      by simp
  next
    case tall: False
    have "0 \<le> of_int TH * ?r" using assms(6) r0 by simp
    then have "0 \<le> trunc_rat (round_dbl (of_int TH * ?r))"
      by (intro trunc_rat_nonneg round_dbl_nonneg)
    moreover have "?r \<le> 1" using tall by simp
    ultimately show ?thesis using True tall eq assms(6) fit_to_ratio_tall[OF r0 _ TH, of TW]
      by simp
  qed
qed



text \<open>
  Claim C6, as amended. With the aspect ratio not kept, the resize operation takes
  exactly the box \<open>(TW, TH)\<close>. The size estimator also starts from the box but then
  caps each axis at the original (\<open>min(new_width, self.current_img.width)\<close>, under the
  comment "Don't allow dimensions greater than original"): its trial size is
  \<open>(min TW W, min TH H)\<close>, which is the box only when the box fits in the original.
\<close>

theorem aspect_off_dimensions:
  "determine_new_dimensions W H TW TH False = Inr (TW, TH) \<and>
   (H \<noteq> 0 \<and> \<bar>W\<bar> < 2 ^ 53 \<longrightarrow>
      trial_dimensions W H TW TH False = Inr (min TW W, min TH H))"
  by (simp add: determine_new_dimensions_def trial_dimensions_def int_truediv_small)

theorem aspect_off_dimensions_witness:
  "determine_new_dimensions 2000 1000 800 600 False = Inr (800, 600) \<and>
   trial_dimensions 2000 1000 800 600 False = Inr (800, 600)"
  using aspect_off_dimensions[of 2000 1000 800 600] by simp

text \<open>
  Claim C6 as stated fails for the estimator: a \<open>100 x 100\<close> original and the box
  \<open>(200, 50)\<close> give the trial size \<open>(100, 50)\<close>, not \<open>(200, 50)\<close>.
\<close>

theorem trial_dimensions_capped_counterexample:
  "trial_dimensions 100 100 200 50 False = Inr (100, 50)"
  by code_simp

text \<open>
  Claim C9. The window application rejects a box with a non-positive axis before any
  resize (\<open>process_images\<close>, "Width and height must be positive numbers."). The
  command line tool has no such check: for the box \<open>(0, 500)\<close>, a \<open>1000 x 2000\<close>
  original and the aspect ratio kept, \<open>resize_image\<close> never reads the width, resizes
  to \<open>(250, 500)\<close> and reports success; with the aspect ratio not kept it hands
  \<open>(0, 500)\<close> to the image library unchecked.
\<close>

theorem resize_image_accepts_zero_width:
  "resize_image (sample_pil (1000, 2000)) ''in.jpg'' ''out.jpg'' 0 500 True 85 = (True, None) \<and>
   determine_new_dimensions 1000 2000 0 500 True = Inr (250, 500) \<and>
   determine_new_dimensions 1000 2000 0 500 False = Inr (0, 500) \<and>
   process_images (sample_env (1000, 2000) None (600, 210))
     ((sample_app (1000, 2000))\<lparr>width_var := ''0'', height_var := ''500''\<rparr>)
     = Rejected SizeNotPositive"
  by code_simp

section \<open>\<open>resize_image\<close> at its interface\<close>



section \<open>The methods' effect on the state\<close>

lemma estimate_state:
  "current_img st = Some img \<Longrightarrow>
   snd (estimate_file_size E w h q st) = st\<lparr>est_calls := est_calls st @ [(w, h)]\<rparr>"
  by (simp add: estimate_file_size_def)


lemma show_dialog_simps [simp]:
  "width_var (show_dialog d st) = width_var st"
  "height_var (show_dialog d st) = height_var st"
  "est_calls (show_dialog d st) = est_calls st"
  "dialogs (show_dialog d st) = dialogs st @ [d]"
  "current_img (show_dialog d st) = current_img st"
  by (simp_all add: show_dialog_def)






section \<open>Scale factors\<close>










section \<open>The search loop\<close>






section \<open>\<open>calculate_dimensions\<close>, path by path\<close>

lemma estimate_pairI:
  assumes "current_img st = Some img" "fst (estimate_file_size E w h q st) = r"
  shows "estimate_file_size E w h q st = (r, st\<lparr>est_calls := est_calls st @ [(w, h)]\<rparr>)"
  using assms by (simp add: prod_eq_iff estimate_state)

lemma positive_not_le_zero: "flt (Fin 0) t \<Longrightarrow> \<not> float_le_int t 0"
  by (cases t) (simp_all add: float_le_int_def)

lemma fast_path:
  assumes "current_img st = Some img" "input_files st \<noteq> []"
    and "builtin_float E (target_size_kb_var st) = Some target_kb"
    and "\<not> float_le_int target_kb 0"
    and "fst (estimate_file_size E (img_width E img) (img_height E img) (quality_var st) st)
           = Inr initial_size"
    and "fle initial_size target_kb"
  shows "calculate_dimensions E st =
           (None, st\<lparr>width_var := str_int (img_width E img),
                       height_var := str_int (img_height E img),
                       est_calls := est_calls st @ [(img_width E img, img_height E img)],
                       dialogs := dialogs st @ [NoResizingNeeded initial_size]\<rparr>)"
proof -
  have "estimate_file_size E (img_width E img) (img_height E img) (quality_var st) st =
          (Inr initial_size,
           st\<lparr>est_calls := est_calls st @ [(img_width E img, img_height E img)]\<rparr>)"
    using assms(1,5) by (rule estimate_pairI)
  then show ?thesis
    using assms(1,2,3,4,6)
    by (simp add: calculate_dimensions_def except_ValueError_def show_dialog_def Let_def)
qed

lemma invalid_target:
  assumes "current_img st = Some img" "input_files st \<noteq> []"
    and "builtin_float E (target_size_kb_var st) = Some target_kb"
    and "float_le_int target_kb 0"
  shows "calculate_dimensions E st = (None, st\<lparr>dialogs := dialogs st @ [InvalidSize]\<rparr>)"
  using assms
  by (simp add: calculate_dimensions_def except_ValueError_def show_dialog_def)












section \<open>The sample environment\<close>

lemma sample_estimate:
  assumes "1 \<le> W0" "1 \<le> H0" "W0 * H0 * 3 < 2 ^ 53" "1 \<le> w" "1 \<le> h"
  shows "fst (estimate_file_size (sample_env (W0, H0) t c) w h q (sample_app_free (W0, H0)))
           = Inr (Fin (round_dbl (of_int (min w W0 * min h H0 * 3) / 1024)))"
proof -
  have "W0 * 1 \<le> W0 * (H0 * 3)" using assms(1,2) by (intro mult_left_mono) simp_all
  then have "W0 \<le> W0 * H0 * 3" by (simp only: mult_1_right mult.assoc)
  then have W: "\<bar>W0\<bar> < 2 ^ 53" using assms(1,3) by linarith
  have H: "H0 \<noteq> 0" using assms(2) by simp
  let ?a = "min w W0" and ?b = "min h H0"
  have a: "1 \<le> ?a" "?a \<le> W0" using assms(1,4) by simp_all
  have b: "1 \<le> ?b" "?b \<le> H0" using assms(2,5) by simp_all
  have "?a * ?b \<le> W0 * H0" using a b by (intro mult_mono) simp_all
  moreover have "0 \<le> ?a * ?b" using a b by simp
  ultimately have n: "\<bar>?a * ?b * 3\<bar> < 2 ^ 53" using assms(3) by simp
  have trial: "trial_dimensions W0 H0 w h False = Inr (?a, ?b)"
    by (simp add: trial_dimensions_def int_truediv_small[OF H W])
  have div: "int_truediv (?a * ?b * 3) 1024 = Inr (Fin (round_dbl (of_int (?a * ?b * 3) / 1024)))"
    using int_truediv_small[OF _ n, of 1024] by simp
  have ok: "\<not> (?a < 1 \<or> ?b < 1)" using a(1) b(1) by linarith
  show ?thesis
    by (simp add: estimate_file_size_def sample_env_def sample_app_free_def sample_app_def
        trial list_index_def encode_format_def div ok del: min_less_iff_disj)
qed

lemma sample_setup:
  "current_img (sample_app_free original) = Some original"
  "input_files (sample_app_free original) \<noteq> []"
  "builtin_float (sample_env original t c) (target_size_kb_var (sample_app_free original)) = t"
  "img_width (sample_env original t c) img = fst img"
  "img_height (sample_env original t c) img = snd img"
  "est_calls (sample_app_free original) = []"
  "width_var (sample_app_free original) = ''800''"
  "height_var (sample_app_free original) = ''600''"
  "dialogs (sample_app_free original) = []"
  by (simp_all add: sample_app_free_def sample_app_def sample_env_def)

lemma round_dbl_samples:
  "round_dbl (46875 / 8) = 46875 / 8"
  "round_dbl (75 / 1024) = 75 / 1024"
  by code_simp+

lemma str_int_samples:
  "str_int 5 = ''5''" "str_int 10 = ''10''" "str_int 2000 = ''2000''" "str_int 1000 = ''1000''"
  by code_simp+

lemma sample_probe_large:
  "fst (estimate_file_size (sample_env (2000, 1000) t c) 2000 1000 q (sample_app_free (2000, 1000)))
     = Inr (Fin (46875 / 8))"
  using sample_estimate[of 2000 1000 2000 1000 t c q] by (simp add: round_dbl_samples)





text \<open>
  With the aspect ratio kept, a search can end on an exception. A \<open>20 x 1\<close> image of
  60 bytes and a target of 32 bytes: the first candidate \<open>(10, 10)\<close> is fitted to the
  ratio as \<open>(10, int(10 / 20.0)) = (10, 0)\<close>, the resize raises \<open>ValueError\<close>, and
  the method shows "Invalid Input"; the width and height fields keep their values.
\<close>

lemma search_abort_sample:
  "calculate_dimensions (sample_env (20, 1) (Some (Fin (1 / 32))) (600, 210)) (sample_app (20, 1)) =
     (None, (sample_app (20, 1))
        \<lparr>est_calls := [(20, 1), (10, 10)], dialogs := [InvalidInput]\<rparr>)"
  by code_simp


section \<open>The solver\<close>

text \<open>
  Claim C1. With an image loaded and a positive target, if the estimate at the original
  size succeeds and is at most the target, \<open>calculate_dimensions\<close> writes the
  original width and height into the two fields, shows "No Resizing Needed" and
  returns. The final state is the initial one but for the two fields, the message and
  one entry in the trace of estimator calls, the probe at the original size: no further
  estimator call is made, and nothing is scaled up.
\<close>

theorem fast_path_keeps_original:
  assumes "current_img st = Some img" "input_files st \<noteq> []"
    and "builtin_float E (target_size_kb_var st) = Some target_kb"
    and "flt (Fin 0) target_kb"
    and "fst (estimate_file_size E (img_width E img) (img_height E img) (quality_var st) st)
           = Inr initial_size"
    and "fle initial_size target_kb"
  shows "calculate_dimensions E st =
           (None, st\<lparr>width_var := str_int (img_width E img),
                       height_var := str_int (img_height E img),
                       est_calls := est_calls st @ [(img_width E img, img_height E img)],
                       dialogs := dialogs st @ [NoResizingNeeded initial_size]\<rparr>)"
  using assms(1,2,3) positive_not_le_zero[OF assms(4)] assms(5,6) by (rule fast_path)

theorem fast_path_keeps_original_witness:
  "calculate_dimensions (sample_env (2000, 1000) (Some (Fin 6000)) (600, 210))
     (sample_app_free (2000, 1000)) =
   (None, (sample_app_free (2000, 1000))
            \<lparr>width_var := ''2000'', height_var := ''1000'',
              est_calls := [(2000, 1000)],
              dialogs := [NoResizingNeeded (Fin (46875 / 8))]\<rparr>)"
  using fast_path_keeps_original[of "sample_app_free (2000, 1000)" "(2000, 1000)"
      "sample_env (2000, 1000) (Some (Fin 6000)) (600, 210)" "Fin 6000" "Fin (46875 / 8)"]
  by (simp add: sample_setup sample_probe_large str_int_samples)

text \<open>
  Claim C8. With an image loaded and a target that parses to a number \<open>\<le> 0\<close>, the
  call shows the error box "Invalid Size" ("Target size must be greater than 0 KB.")
  and returns at once: the width and height fields are unchanged, no estimator call is
  made, and the only difference in the state is the message.
\<close>

theorem nonpositive_target_rejected:
  assumes "current_img st = Some img" "input_files st \<noteq> []"
    and "builtin_float E (target_size_kb_var st) = Some target_kb"
    and "float_le_int target_kb 0"
  shows "calculate_dimensions E st = (None, st\<lparr>dialogs := dialogs st @ [InvalidSize]\<rparr>) \<and>
         width_var (snd (calculate_dimensions E st)) = width_var st \<and>
         height_var (snd (calculate_dimensions E st)) = height_var st \<and>
         est_calls (snd (calculate_dimensions E st)) = est_calls st"
  using invalid_target[OF assms] by simp

theorem nonpositive_target_rejected_witness:
  "calculate_dimensions (sample_env (2000, 1000) (Some (Fin (- 5))) (600, 210))
     (sample_app_free (2000, 1000)) =
   (None, (sample_app_free (2000, 1000))\<lparr>dialogs := [InvalidSize]\<rparr>) \<and>
   width_var (snd (calculate_dimensions (sample_env (2000, 1000) (Some (Fin (- 5))) (600, 210))
     (sample_app_free (2000, 1000)))) = ''800'' \<and>
   height_var (snd (calculate_dimensions (sample_env (2000, 1000) (Some (Fin (- 5))) (600, 210))
     (sample_app_free (2000, 1000)))) = ''600''"
  using nonpositive_target_rejected[of "sample_app_free (2000, 1000)" "(2000, 1000)"
      "sample_env (2000, 1000) (Some (Fin (- 5))) (600, 210)" "Fin (- 5)"]
  by (simp add: sample_setup float_le_int_def)













end
